theory Spec2Isabelle
  imports Main "HOL-Library.Multiset"
begin

section \<open>Data model\<close>

text \<open>
  The PostgreSQL schema generator (\<^verbatim>\<open>BasePostgresSchemaGenerator\<close>) reads model
  classes through their \<^verbatim>\<open>_meta\<close> object and the field objects in
  \<^verbatim>\<open>_meta.fields_map\<close>. The records below hold exactly the attributes the
  generator reads.
\<close>

datatype error =
    KeyError string
  | AttributeError string
  | NotImplementedError
  | ConfigurationError string
  | OtherError string

text \<open>Python values that occur as a field's \<^verbatim>\<open>default\<close>.\<close>

datatype pyval = PNone | PBool bool | PInt int | PStr string | PCallable | PObject string

text \<open>
  The only thing the generator asks about a field's class is
  \<^verbatim>\<open>isinstance(field_object, (UUIDField, TextField, JSONField))\<close>.
\<close>

datatype field_class = UUIDField | TextField | JSONField | OtherField

text \<open>
  What is read of a model through a relation: \<^verbatim>\<open>_meta.schema\<close>,
  \<^verbatim>\<open>_meta.db_table\<close>, \<^verbatim>\<open>_meta.db_pk_column\<close> and
  \<^verbatim>\<open>_meta.pk.get_for_dialect(DIALECT, "SQL_TYPE")\<close>.
\<close>

record model_ref =
  schema :: "string option"
  db_table :: string
  db_pk_column :: string
  pk_sql_type :: string

text \<open>The \<^verbatim>\<open>reference\<close> attribute of the column of a foreign key.\<close>

record reference_info =
  ref_description :: "string option"
  to_field_source_field :: "string option"
  to_field_model_field_name :: string
  related_model :: model_ref
  on_delete :: string
  db_constraint :: bool

text \<open>The attributes of a \<^verbatim>\<open>ManyToManyFieldInstance\<close>.\<close>

record m2m_info =
  m2m_generated :: bool
  through :: string
  backward_key :: string
  forward_key :: string
  m2m_related_model :: model_ref
  m2m_on_delete :: string
  m2m_db_constraint :: bool

record field =
  field_class :: field_class
  description :: "string option"
  default :: pyval
  auto_now_add :: bool
  auto_now :: bool
  pk :: bool
  generated :: bool
  generated_sql :: "string option"
  sql_type :: string
  null :: bool
  unique :: bool
  index :: bool
  source_field :: "string option"
  reference :: "reference_info option"
  m2m :: "m2m_info option"

text \<open>
  An entry of \<^verbatim>\<open>_meta.indexes\<close> is a list of field names or an
  \<^verbatim>\<open>Index\<close> object (named here by a tag; its \<^verbatim>\<open>get_sql\<close> is a
  collaborator).
\<close>

datatype index_decl = IndexFields "string list" | IndexObject string

record model = model_ref +
  fields_db_projection :: "(string \<times> string) list"
  fields_map :: "(string \<times> field) list"
  unique_together :: "string list list"
  indexes :: "index_decl list"
  table_description :: "string option"
  m2m_fields :: "string list"

text \<open>
  The generator object: \<^verbatim>\<open>comments_array\<close> and \<^verbatim>\<open>schema_names\<close>.
  \<^verbatim>\<open>schema_names\<close> is a Python set of strings that the generator iterates over.
  The list is the order in which the set iterates; what \<^verbatim>\<open>set.add\<close> does to
  that order depends on the hashes of the strings and is the collaborator
  \<open>set_add\<close> below.
\<close>

record generator =
  comments_array :: "string list"
  schema_names :: "string list"

text \<open>\<^verbatim>\<open>__init__\<close>\<close>

definition init :: generator where
  "init = \<lparr>comments_array = [], schema_names = []\<rparr>"

text \<open>
  Methods inherited from \<^verbatim>\<open>BaseSchemaGenerator\<close> and other collaborators whose
  code is not part of the sources: they are parameters of the model.
  \<open>get_models_to_create\<close> is the list that \<^verbatim>\<open>_get_models_to_create\<close>
  appends; \<open>encoders\<close> is \<^verbatim>\<open>encoders.get(type(v))(v)\<close>; \<open>to_db_value\<close> is the
  field's method; \<open>index_get_sql\<close> is \<^verbatim>\<open>Index.get_sql\<close>; \<open>table_str\<close> is
  \<^verbatim>\<open>str(Table(name=..., schema=...))\<close> of pypika.
\<close>

record base =
  create_string :: "string \<Rightarrow> string \<Rightarrow> string \<Rightarrow> string \<Rightarrow> bool \<Rightarrow> string \<Rightarrow> string \<Rightarrow> string"
  generate_index_name :: "string \<Rightarrow> model \<Rightarrow> string list \<Rightarrow> string"
  generate_fk_name :: "string \<Rightarrow> string \<Rightarrow> string \<Rightarrow> string \<Rightarrow> string"
  get_unique_constraint_sql :: "model \<Rightarrow> string list \<Rightarrow> string"
  get_inner_statements :: "string list"
  table_generate_extra :: "string \<Rightarrow> string"
  escape_comment :: "string \<Rightarrow> string"
  quote :: "string \<Rightarrow> string"
  get_models_to_create :: "model list"
  encoders :: "pyval \<Rightarrow> error + string"
  to_db_value :: "field \<Rightarrow> pyval \<Rightarrow> error + pyval"
  index_get_sql :: "string \<Rightarrow> model \<Rightarrow> bool \<Rightarrow> string"
  table_str :: "string \<Rightarrow> string option \<Rightarrow> string"
  set_add :: "string \<Rightarrow> string list \<Rightarrow> string list"

text \<open>The dictionary returned by \<^verbatim>\<open>_get_table_sql\<close>.\<close>

record table_sql =
  table :: string
  table_schema :: "string option"
  table_model :: model
  table_creation_string :: string
  references :: "string set"
  m2m_tables :: "string list"

section \<open>String helpers\<close>

text \<open>Fragments of SQL text, and the names of tables, columns and fields.\<close>

type_synonym sql = string

type_synonym ident = string

definition sq :: string where
  "sq = [CHR 0x27]"

text \<open>\<^verbatim>\<open>sep.join(xs)\<close>\<close>

fun join :: "string \<Rightarrow> string list \<Rightarrow> string" where
  "join sep [] = []"
| "join sep [x] = x"
| "join sep (x # y # ys) = x @ sep @ join sep (y # ys)"

text \<open>
  \<^verbatim>\<open>s.replace(old, new)\<close> for a non-empty \<open>old\<close>: the occurrences are replaced from
  left to right without overlap.
\<close>

function replace :: "string \<Rightarrow> string \<Rightarrow> string \<Rightarrow> string" where
  "replace old new [] = []"
| "replace old new (c # cs) =
     (if old \<noteq> [] \<and> take (length old) (c # cs) = old
      then new @ replace old new (drop (length old) (c # cs))
      else c # replace old new cs)"
  by pat_completeness auto
termination
  by (relation "measure (\<lambda>(old, new, s). length s)") auto

text \<open>\<^verbatim>\<open>list(dict.fromkeys(xs))\<close>: the first occurrence of each element, in order.\<close>

fun fromkeys :: "string list \<Rightarrow> string list \<Rightarrow> string list" where
  "fromkeys seen [] = []"
| "fromkeys seen (x # xs) =
     (if x \<in> set seen then fromkeys seen xs else x # fromkeys (seen @ [x]) xs)"

text \<open>Truth value of an optional string (\<^verbatim>\<open>None\<close> and \<^verbatim>\<open>""\<close> are false).\<close>

fun truthy :: "string option \<Rightarrow> bool" where
  "truthy None = False"
| "truthy (Some s) = (s \<noteq> [])"

text \<open>\<^verbatim>\<open>a or b\<close> for an optional string \<open>a\<close>.\<close>

fun or_else :: "string option \<Rightarrow> string \<Rightarrow> string" where
  "or_else None d = d"
| "or_else (Some s) d = (if s = [] then d else s)"

section \<open>The generator\<close>

definition IF_NOT_EXISTS :: string where
  "IF_NOT_EXISTS = ''IF NOT EXISTS ''"

definition exists_clause :: "bool \<Rightarrow> string" where
  "exists_clause safe = (if safe then IF_NOT_EXISTS else [])"

text \<open>\<^verbatim>\<open>SCHEMA_CREATION_TEMPLATE\<close>\<close>

definition schema_creation :: "bool \<Rightarrow> string \<Rightarrow> string" where
  \<open>schema_creation safe schema_name =
     ''CREATE SCHEMA '' @ exists_clause safe @ ''"'' @ schema_name @ ''";''\<close>

text \<open>\<^verbatim>\<open>_create_fk_string\<close> with \<^verbatim>\<open>FK_TEMPLATE\<close>\<close>

definition create_fk_string ::
  "ident \<Rightarrow> ident \<Rightarrow> sql \<Rightarrow> ident \<Rightarrow> sql \<Rightarrow> sql \<Rightarrow> sql" where
  \<open>create_fk_string constraint_name db_column tbl fld on_del comment =
     '' REFERENCES '' @ tbl @ '' ("'' @ fld @ ''") ON DELETE '' @ on_del @ comment\<close>

text \<open>\<^verbatim>\<open>_get_table_name_sql_string\<close>\<close>

definition get_table_name_sql_string :: "'a model_ref_scheme \<Rightarrow> string" where
  \<open>get_table_name_sql_string m =
     (case schema m of
        Some sc \<Rightarrow> ''"'' @ sc @ ''"."'' @ db_table m @ ''"''
      | None \<Rightarrow> ''"'' @ db_table m @ ''"'')\<close>

text \<open>\<^verbatim>\<open>_get_index_sql\<close> with \<^verbatim>\<open>INDEX_CREATE_TEMPLATE\<close>\<close>

definition get_index_sql :: "base \<Rightarrow> model \<Rightarrow> string list \<Rightarrow> bool \<Rightarrow> string" where
  \<open>get_index_sql b m field_names safe =
     ''CREATE INDEX '' @ exists_clause safe @ ''"'' @ generate_index_name b ''idx'' m field_names
       @ ''" ON '' @ get_table_name_sql_string m
       @ '' ('' @ join '', '' (map (quote b) field_names) @ '');''\<close>

text \<open>
  \<^verbatim>\<open>_table_comment_generator\<close> and \<^verbatim>\<open>_column_comment_generator\<close>: both
  return the empty string and append to \<^verbatim>\<open>comments_array\<close>.
\<close>

definition table_comment :: "base \<Rightarrow> string \<Rightarrow> string \<Rightarrow> string" where
  \<open>table_comment b table_name comment =
     ''COMMENT ON TABLE '' @ table_name @ '' IS '' @ sq @ escape_comment b comment @ sq @ '';''\<close>

definition table_comment_generator ::
  "base \<Rightarrow> string \<Rightarrow> string \<Rightarrow> generator \<Rightarrow> string \<times> generator" where
  "table_comment_generator b table_name comment g =
     ([], g\<lparr>comments_array := comments_array g @ [table_comment b table_name comment]\<rparr>)"

definition column_comment :: "base \<Rightarrow> string \<Rightarrow> string \<Rightarrow> string \<Rightarrow> string" where
  \<open>column_comment b tbl column comment =
     ''COMMENT ON COLUMN '' @ tbl @ ''."'' @ column @ ''" IS '' @ sq
       @ escape_comment b comment @ sq @ '';''\<close>

definition column_comment_generator ::
  "base \<Rightarrow> string \<Rightarrow> string \<Rightarrow> string \<Rightarrow> generator \<Rightarrow> string \<times> generator" where
  "column_comment_generator b tbl column comment g =
     (let c = column_comment b tbl column comment
      in ([], if c \<in> set (comments_array g) then g
              else g\<lparr>comments_array := comments_array g @ [c]\<rparr>))"

text \<open>\<^verbatim>\<open>_post_table_hook\<close>\<close>

definition post_table_hook :: "generator \<Rightarrow> string \<times> generator" where
  "post_table_hook g =
     (let val = join ''\<newline>'' (comments_array g);
          g' = g\<lparr>comments_array := []\<rparr>
      in if val \<noteq> [] then (''\<newline>'' @ val, g') else ([], g'))"

text \<open>\<^verbatim>\<open>_column_default_generator\<close>\<close>

definition column_default_generator ::
  "string \<Rightarrow> string \<Rightarrow> string \<Rightarrow> bool \<Rightarrow> bool \<Rightarrow> string" where
  "column_default_generator tbl column dflt auto_now_add_flag auto_now_flag =
     '' DEFAULT'' @ (if auto_now_add_flag then '' CURRENT_TIMESTAMP'' else '' '' @ dflt)"

text \<open>
  \<^verbatim>\<open>_escape_default_value\<close>; the result is only ever formatted into the
  \<^verbatim>\<open>DEFAULT\<close> clause, so a boolean is returned as Python prints it.
\<close>

definition escape_default_value :: "base \<Rightarrow> pyval \<Rightarrow> error + string" where
  "escape_default_value b v =
     (case v of
        PBool x \<Rightarrow> Inr (if x then ''True'' else ''False'')
      | _ \<Rightarrow> encoders b v)"

text \<open>
  The default of a column (lines 150 to 169 of \<^verbatim>\<open>_get_table_sql\<close>). Only
  \<^verbatim>\<open>NotImplementedError\<close> is caught, and only around the escaping and
  \<^verbatim>\<open>_column_default_generator\<close>; \<^verbatim>\<open>to_db_value\<close> is called outside the
  \<^verbatim>\<open>try\<close>.
\<close>

definition column_default :: "base \<Rightarrow> model \<Rightarrow> string \<Rightarrow> field \<Rightarrow> error + string" where
  "column_default b m column_name field_object =
     (if default field_object \<noteq> PNone \<or> auto_now field_object \<or> auto_now_add field_object then
        if default field_object = PCallable
           \<or> field_class field_object \<in> {UUIDField, TextField, JSONField}
        then Inr []
        else
          (case to_db_value b field_object (default field_object) of
             Inl e \<Rightarrow> Inl e
           | Inr v \<Rightarrow>
               (case escape_default_value b v of
                  Inl NotImplementedError \<Rightarrow> Inr []
                | Inl e \<Rightarrow> Inl e
                | Inr d \<Rightarrow>
                    Inr (column_default_generator (db_table m) column_name d
                           (auto_now_add field_object) (auto_now field_object))))
      else Inr [])"

text \<open>
  \<^verbatim>\<open>self._column_comment_generator(...) if x.description else ""\<close>, for the
  description of a field and for the description of its reference.
\<close>

definition column_comment_if ::
  "base \<Rightarrow> string \<Rightarrow> string \<Rightarrow> string option \<Rightarrow> generator \<Rightarrow> string \<times> generator" where
  "column_comment_if b tbl column d g =
     (case d of
        None \<Rightarrow> ([], g)
      | Some c \<Rightarrow> if c = [] then ([], g) else column_comment_generator b tbl column c g)"

text \<open>\<^verbatim>\<open>GENERATED_PK_TEMPLATE\<close>\<close>

definition generated_pk :: "string \<Rightarrow> string \<Rightarrow> string" where
  \<open>generated_pk field_name gen_sql = ''"'' @ field_name @ ''" '' @ gen_sql\<close>

text \<open>
  The nested tests of lines 172 to 175: a primary key that the database generates and
  for which the dialect has a \<^verbatim>\<open>GENERATED_SQL\<close>.
\<close>

definition generated_pk_column :: "field \<Rightarrow> bool" where
  "generated_pk_column field_object =
     (pk field_object \<and> generated field_object \<and> truthy (generated_sql field_object))"

text \<open>
  The accumulators of the loop over the columns: \<^verbatim>\<open>fields_to_create\<close>,
  \<^verbatim>\<open>fields_with_index\<close> and \<^verbatim>\<open>references\<close>.
\<close>

type_synonym columns = "string list \<times> string list \<times> string set"

text \<open>
  One iteration of the loop over \<^verbatim>\<open>fields_db_projection.items()\<close> (lines 138 to
  246). The statement \<^verbatim>\<open>references.add(...)\<close> of line 231 is outside the
  conditional expression on \<^verbatim>\<open>reference.db_constraint\<close>.
\<close>

fun render_field ::
  "base \<Rightarrow> model \<Rightarrow> string \<times> string \<Rightarrow> columns \<Rightarrow> generator \<Rightarrow> (error + columns) \<times> generator" where
  "render_field b m (field_name, column_name) (fields_to_create, fields_with_index, refs) g =
     (case map_of (fields_map m) field_name of
        None \<Rightarrow> (Inl (KeyError field_name), g)
      | Some field_object \<Rightarrow>
          (case column_comment_if b (get_table_name_sql_string m) column_name
                  (description field_object) g of
             (comment, g1) \<Rightarrow>
          (case column_default b m column_name field_object of
             Inl e \<Rightarrow> (Inl e, g1)
           | Inr dflt \<Rightarrow>
               if generated_pk_column field_object
               then
                 (Inr (fields_to_create
                         @ [generated_pk column_name (or_else (generated_sql field_object) [])],
                       fields_with_index, refs), g1)
               else
                 let nullable = (if \<not> null field_object then ''NOT NULL'' else []);
                     uniq = (if unique field_object then ''UNIQUE'' else []);
                     fields_with_index' =
                       (if index field_object \<and> \<not> pk field_object
                        then fields_with_index @ [column_name] else fields_with_index)
                 in
                   (case reference field_object of
                      Some r \<Rightarrow>
                        (case column_comment_if b (get_table_name_sql_string m) column_name
                                (ref_description r) g1 of
                           (comment', g2) \<Rightarrow>
                             let to_field_name =
                                   or_else (to_field_source_field r) (to_field_model_field_name r);
                                 field_creation_string =
                                   create_string b column_name (sql_type field_object) nullable uniq
                                     (pk field_object) [] dflt
                                   @ (if db_constraint r
                                      then create_fk_string
                                             (generate_fk_name b (db_table m) column_name
                                                (db_table (related_model r)) to_field_name)
                                             column_name
                                             (get_table_name_sql_string (related_model r))
                                             to_field_name (on_delete r) comment'
                                      else [])
                             in (Inr (fields_to_create @ [field_creation_string],
                                      fields_with_index',
                                      insert (db_table (related_model r)) refs), g2))
                    | None \<Rightarrow>
                        (Inr (fields_to_create
                                @ [create_string b column_name (sql_type field_object) nullable uniq
                                     (pk field_object) comment dflt],
                              fields_with_index', refs), g1)))))"

fun fields_loop ::
  "base \<Rightarrow> model \<Rightarrow> (string \<times> string) list \<Rightarrow> columns \<Rightarrow> generator
     \<Rightarrow> (error + columns) \<times> generator" where
  "fields_loop b m [] cols g = (Inr cols, g)"
| "fields_loop b m (fc # rest) cols g =
     (case render_field b m fc cols g of
        (Inl e, g') \<Rightarrow> (Inl e, g')
      | (Inr cols', g') \<Rightarrow> fields_loop b m rest cols' g')"

text \<open>
  \<^verbatim>\<open>[fields_map[f].source_field or f for f in names]\<close>, as the loops over
  \<^verbatim>\<open>unique_together\<close> and \<^verbatim>\<open>indexes\<close> build it; a name that is not in
  \<^verbatim>\<open>fields_map\<close> raises \<^verbatim>\<open>KeyError\<close>.
\<close>

fun source_fields :: "model \<Rightarrow> string list \<Rightarrow> error + string list" where
  "source_fields m [] = Inr []"
| "source_fields m (f # fs) =
     (case map_of (fields_map m) f of
        None \<Rightarrow> Inl (KeyError f)
      | Some field_object \<Rightarrow>
          (case source_fields m fs of
             Inl e \<Rightarrow> Inl e
           | Inr names \<Rightarrow> Inr (or_else (source_field field_object) f # names)))"

fun unique_together_sql :: "base \<Rightarrow> model \<Rightarrow> string list list \<Rightarrow> error + string list" where
  "unique_together_sql b m [] = Inr []"
| "unique_together_sql b m (u # us) =
     (case source_fields m u of
        Inl e \<Rightarrow> Inl e
      | Inr names \<Rightarrow>
          (case unique_together_sql b m us of
             Inl e \<Rightarrow> Inl e
           | Inr rest \<Rightarrow> Inr (get_unique_constraint_sql b m names # rest)))"

fun indexes_sql :: "base \<Rightarrow> model \<Rightarrow> bool \<Rightarrow> index_decl list \<Rightarrow> error + string list" where
  "indexes_sql b m safe [] = Inr []"
| "indexes_sql b m safe (IndexFields fs # is) =
     (case source_fields m fs of
        Inl e \<Rightarrow> Inl e
      | Inr names \<Rightarrow>
          (case indexes_sql b m safe is of
             Inl e \<Rightarrow> Inl e
           | Inr rest \<Rightarrow> Inr (get_index_sql b m names safe # rest)))"
| "indexes_sql b m safe (IndexObject i # is) =
     (case indexes_sql b m safe is of
        Inl e \<Rightarrow> Inl e
      | Inr rest \<Rightarrow> Inr (index_get_sql b i m safe # rest))"

text \<open>\<^verbatim>\<open>TABLE_CREATE_TEMPLATE\<close>\<close>

definition table_create_template ::
  "sql \<Rightarrow> sql \<Rightarrow> sql \<Rightarrow> sql \<Rightarrow> sql \<Rightarrow> sql" where
  "table_create_template ex table_name flds extra comment =
     ''CREATE TABLE '' @ ex @ table_name @ '' ('' @ flds @ '')'' @ extra @ comment @ '';''"

text \<open>
  Lines 130 to 301 of \<^verbatim>\<open>_get_table_sql\<close>: the statement of the table joined
  with its index statements, and the set \<^verbatim>\<open>references\<close>.
\<close>

definition table_create ::
  "base \<Rightarrow> model \<Rightarrow> bool \<Rightarrow> generator \<Rightarrow> (error + string \<times> string set) \<times> generator" where
  "table_create b m safe g =
     (case fields_loop b m (fields_db_projection m) ([], [], {}) g of
        (Inl e, g1) \<Rightarrow> (Inl e, g1)
      | (Inr (fields_to_create, fields_with_index, refs), g1) \<Rightarrow>
          (case unique_together_sql b m (unique_together m) of
             Inl e \<Rightarrow> (Inl e, g1)
           | Inr uniques \<Rightarrow>
               (case indexes_sql b m safe (indexes m) of
                  Inl e \<Rightarrow> (Inl e, g1)
                | Inr idx \<Rightarrow>
                    let field_indexes_sqls =
                          filter (\<lambda>v. v \<noteq> [])
                            (fromkeys []
                               (map (\<lambda>f. get_index_sql b m [f] safe) fields_with_index @ idx));
                        table_fields_string =
                          ''\<newline>    ''
                          @ join '',\<newline>    ''
                              (fields_to_create @ uniques @ get_inner_statements b)
                          @ ''\<newline>''
                    in
                      (case (if truthy (table_description m)
                             then table_comment_generator b (get_table_name_sql_string m)
                                    (or_else (table_description m) []) g1
                             else ([], g1)) of
                         (comment, g2) \<Rightarrow>
                           (Inr (join ''\<newline>''
                                   (table_create_template (exists_clause safe)
                                      (get_table_name_sql_string m) table_fields_string
                                      (table_generate_extra b (get_table_name_sql_string m))
                                      comment
                                    # field_indexes_sqls),
                                 refs), g2)))))"

text \<open>\<^verbatim>\<open>M2M_TABLE_TEMPLATE\<close>\<close>

definition m2m_table_template ::
  "sql \<Rightarrow> sql \<Rightarrow> ident \<Rightarrow> sql \<Rightarrow> sql \<Rightarrow> ident \<Rightarrow> sql \<Rightarrow> sql \<Rightarrow> sql \<Rightarrow> sql \<Rightarrow> sql" where
  \<open>m2m_table_template ex table_name backward_k backward_type backward_fk
       forward_k forward_type forward_fk extra comment =
     ''CREATE TABLE '' @ ex @ table_name @ '' (\<newline>''
     @ ''    "'' @ backward_k @ ''" '' @ backward_type @ '' NOT NULL'' @ backward_fk @ '',\<newline>''
     @ ''    "'' @ forward_k @ ''" '' @ forward_type @ '' NOT NULL'' @ forward_fk @ ''\<newline>''
     @ '')'' @ extra @ comment @ '';''\<close>

text \<open>
  The body of the loop over \<^verbatim>\<open>_meta.m2m_fields\<close> for a relation that is not
  skipped (lines 310 to 359): the statement of the join table, followed by what
  \<^verbatim>\<open>_post_table_hook\<close> returns.
\<close>

definition m2m_create ::
  "base \<Rightarrow> model \<Rightarrow> bool \<Rightarrow> field \<Rightarrow> m2m_info \<Rightarrow> generator \<Rightarrow> string \<times> generator" where
  "m2m_create b m safe field_object r g =
     (let through_table = table_str b (through r) (schema m);
          backward_fk =
            (if m2m_db_constraint r
             then create_fk_string [] (backward_key r) (get_table_name_sql_string m)
                    (db_pk_column m) (m2m_on_delete r) []
             else []);
          forward_fk =
            (if m2m_db_constraint r
             then create_fk_string [] (forward_key r)
                    (get_table_name_sql_string (m2m_related_model r))
                    (db_pk_column (m2m_related_model r)) (m2m_on_delete r) []
             else [])
      in
        (case (if truthy (description field_object)
               then table_comment_generator b through_table
                      (or_else (description field_object) []) g
               else ([], g)) of
           (comment, g1) \<Rightarrow>
             let m2m_create_string =
                   m2m_table_template (exists_clause safe) through_table
                     (backward_key r) (pk_sql_type m) backward_fk
                     (forward_key r) (pk_sql_type (m2m_related_model r)) forward_fk
                     (table_generate_extra b through_table) comment;
                 m2m_create_string' =
                   (if \<not> m2m_db_constraint r
                    then replace '',\<newline>    ,\<newline>    '' [] m2m_create_string
                    else m2m_create_string)
             in (case post_table_hook g1 of
                   (val, g2) \<Rightarrow> (m2m_create_string' @ val, g2))))"

text \<open>
  The loop over \<^verbatim>\<open>_meta.m2m_fields\<close> (lines 305 to 359); \<open>models_tables\<close> are
  the table names of the declared models.
\<close>

fun m2m_loop ::
  "base \<Rightarrow> model \<Rightarrow> bool \<Rightarrow> string list \<Rightarrow> string list \<Rightarrow> string list \<Rightarrow> generator
     \<Rightarrow> (error + string list) \<times> generator" where
  "m2m_loop b m safe models_tables [] m2m_tables_for_create g = (Inr m2m_tables_for_create, g)"
| "m2m_loop b m safe models_tables (m2m_field # rest) m2m_tables_for_create g =
     (case map_of (fields_map m) m2m_field of
        None \<Rightarrow> (Inl (KeyError m2m_field), g)
      | Some field_object \<Rightarrow>
          (case m2m field_object of
             None \<Rightarrow> (Inl (AttributeError m2m_field), g)
           | Some r \<Rightarrow>
               if m2m_generated r \<or> through r \<in> set models_tables
               then m2m_loop b m safe models_tables rest m2m_tables_for_create g
               else
                 (case m2m_create b m safe field_object r g of
                    (m2m_create_string, g') \<Rightarrow>
                      m2m_loop b m safe models_tables rest
                        (m2m_tables_for_create @ [m2m_create_string]) g')))"

text \<open>\<^verbatim>\<open>_get_table_sql\<close>\<close>

definition get_table_sql ::
  "base \<Rightarrow> model \<Rightarrow> bool \<Rightarrow> generator \<Rightarrow> (error + table_sql) \<times> generator" where
  "get_table_sql b m safe g =
     (let models_tables = map db_table (get_models_to_create b)
      in case table_create b m safe g of
           (Inl e, g1) \<Rightarrow> (Inl e, g1)
         | (Inr (table_create_string, refs), g1) \<Rightarrow>
             (case post_table_hook g1 of
                (val, g2) \<Rightarrow>
                  (case m2m_loop b m safe models_tables (m2m_fields m) [] g2 of
                     (Inl e, g3) \<Rightarrow> (Inl e, g3)
                   | (Inr m2m_tables_for_create, g3) \<Rightarrow>
                       (Inr \<lparr>table = db_table m,
                             table_schema = schema m,
                             table_model = m,
                             table_creation_string = table_create_string @ val,
                             references = refs,
                             m2m_tables = m2m_tables_for_create\<rparr>, g3))))"

text \<open>
  The first loop of \<^verbatim>\<open>get_create_schema_sql\<close> (lines 374 to 378): the schema name
  of each model is added to \<^verbatim>\<open>schema_names\<close>, then its table is rendered.
\<close>

definition add_schema :: "base \<Rightarrow> model \<Rightarrow> generator \<Rightarrow> generator" where
  "add_schema b m g =
     (case schema m of
        Some sc \<Rightarrow> g\<lparr>schema_names := set_add b sc (schema_names g)\<rparr>
      | None \<Rightarrow> g)"

fun tables_loop ::
  "base \<Rightarrow> bool \<Rightarrow> model list \<Rightarrow> table_sql list \<Rightarrow> generator
     \<Rightarrow> (error + table_sql list) \<times> generator" where
  "tables_loop b safe [] tables_to_create g = (Inr tables_to_create, g)"
| "tables_loop b safe (m # ms) tables_to_create g =
     (case get_table_sql b m safe (add_schema b m g) of
        (Inl e, g2) \<Rightarrow> (Inl e, g2)
      | (Inr t, g2) \<Rightarrow> tables_loop b safe ms (tables_to_create @ [t]) g2)"

text \<open>
  \<^verbatim>\<open>create_schemas_sql\<close> (lines 380 to 386). The test
  \<^verbatim>\<open>schema_name is not "public"\<close> compares object identities; a schema name
  written as the literal \<^verbatim>\<open>"public"\<close> in a model's \<^verbatim>\<open>Meta\<close> is the same
  interned object as the literal of the generator, so the test is modelled as an
  inequality of strings.
\<close>

definition create_schemas_sql :: "bool \<Rightarrow> generator \<Rightarrow> string list" where
  "create_schemas_sql safe g =
     map (schema_creation safe) (filter (\<lambda>schema_name. schema_name \<noteq> ''public'') (schema_names g))"

definition cyclic_fk_message :: string where
  "cyclic_fk_message = ''Can'' @ sq @ ''t create schema due to cyclic fk references''"

text \<open>
  \<^verbatim>\<open>next(t for t in tables_to_create
    if t["references"].issubset(created_tables | {t["table"]}))\<close>
\<close>

definition next_table_for_create :: "table_sql list \<Rightarrow> string set \<Rightarrow> table_sql option" where
  "next_table_for_create tables_to_create created_tables =
     find (\<lambda>t. references t \<subseteq> created_tables \<union> {table t}) tables_to_create"

text \<open>
  The \<^verbatim>\<open>while True\<close> loop of \<^verbatim>\<open>get_create_schema_sql\<close> (lines 393 to 407).
  Each iteration that neither leaves the loop nor raises removes one element of
  \<^verbatim>\<open>tables_to_create\<close>.
\<close>

function order_loop ::
  "nat \<Rightarrow> table_sql list \<Rightarrow> string set \<Rightarrow> string list \<Rightarrow> string list
     \<Rightarrow> error + (string list \<times> string list)" where
  "order_loop tables_to_create_count tables_to_create created_tables
       ordered_tables_for_create m2m_tables_to_create =
     (if card created_tables = tables_to_create_count
      then Inr (ordered_tables_for_create, m2m_tables_to_create)
      else
        (case next_table_for_create tables_to_create created_tables of
           None \<Rightarrow> Inl (ConfigurationError cyclic_fk_message)
         | Some t \<Rightarrow>
             order_loop tables_to_create_count (remove1 t tables_to_create)
               (insert (table t) created_tables)
               (ordered_tables_for_create @ [table_creation_string t])
               (m2m_tables_to_create @ m2m_tables t)))"
  by pat_completeness auto
termination
proof (relation "measure (\<lambda>(n, ts, created, ordered, m2m). length ts)")
  show "wf (measure (\<lambda>(n, ts, created, ordered, m2m). length ts))"
    by simp
next
  fix n :: nat and ts :: "table_sql list" and created :: "string set"
    and ordered m2m :: "string list" and t :: table_sql
  assume "next_table_for_create ts created = Some t"
  then have "t \<in> set ts"
    by (auto simp: next_table_for_create_def find_Some_iff)
  moreover from this have "0 < length ts"
    by (cases ts) auto
  ultimately have "length (remove1 t ts) < length ts"
    by (simp add: length_remove1)
  then show "((n, remove1 t ts, insert (table t) created,
               ordered @ [table_creation_string t], m2m @ m2m_tables t),
              (n, ts, created, ordered, m2m))
             \<in> measure (\<lambda>(n, ts, created, ordered, m2m). length ts)"
    by simp
qed

text \<open>\<^verbatim>\<open>get_create_schema_sql\<close>\<close>

definition get_create_schema_sql ::
  "base \<Rightarrow> bool \<Rightarrow> generator \<Rightarrow> (error + string) \<times> generator" where
  "get_create_schema_sql b safe g =
     (case tables_loop b safe (get_models_to_create b) [] g of
        (Inl e, g1) \<Rightarrow> (Inl e, g1)
      | (Inr tables_to_create, g1) \<Rightarrow>
          (let create_schemas = create_schemas_sql safe g1
           in case order_loop (length tables_to_create) tables_to_create {} [] [] of
                Inl e \<Rightarrow> (Inl e, g1)
              | Inr (ordered_tables_for_create, m2m_tables_to_create) \<Rightarrow>
                  (Inr (join ''\<newline>''
                          (create_schemas @ ordered_tables_for_create @ m2m_tables_to_create)),
                   g1)))"

section \<open>Notions used to state the properties\<close>

text \<open>
  A list of table dictionaries is placed in order, starting from the set \<open>created\<close> of
  table names, when the references of each one are among the tables placed before it
  and its own table.
\<close>

fun placed_in_order :: "string set \<Rightarrow> table_sql list \<Rightarrow> bool" where
  "placed_in_order created [] = True"
| "placed_in_order created (t # ts) =
     (references t \<subseteq> created \<union> {table t} \<and> placed_in_order (insert (table t) created) ts)"



text \<open>
  One iteration of the ordering loop that places a table, as a transition between the
  states (\<^verbatim>\<open>tables_to_create\<close>, \<^verbatim>\<open>created_tables\<close>,
  \<^verbatim>\<open>ordered_tables_for_create\<close>, \<^verbatim>\<open>m2m_tables_to_create\<close>).
\<close>

type_synonym loop_state = "table_sql list \<times> string set \<times> string list \<times> string list"

inductive loop_step :: "nat \<Rightarrow> loop_state \<Rightarrow> loop_state \<Rightarrow> bool" for n :: nat where
  place:
    "card created \<noteq> n \<Longrightarrow> next_table_for_create ts created = Some t \<Longrightarrow>
     loop_step n (ts, created, ordered, joins)
       (remove1 t ts, insert (table t) created,
        ordered @ [table_creation_string t], joins @ m2m_tables t)"

text \<open>The result of the loop when it is started in a given state.\<close>

fun run_from :: "nat \<Rightarrow> loop_state \<Rightarrow> error + (string list \<times> string list)" where
  "run_from n (ts, created, ordered, joins) = order_loop n ts created ordered joins"

text \<open>
  A comment statement on the table of a model or on one of its columns, recognised by
  the fixed beginning of \<^verbatim>\<open>TABLE_COMMENT_TEMPLATE\<close> and
  \<^verbatim>\<open>COLUMN_COMMENT_TEMPLATE\<close>.
\<close>

definition own_comment :: "model \<Rightarrow> string \<Rightarrow> bool" where
  \<open>own_comment m c =
     (let t = ''COMMENT ON TABLE '' @ get_table_name_sql_string m @ '' IS '';
          k = ''COMMENT ON COLUMN '' @ get_table_name_sql_string m @ ''."''
      in take (length t) c = t \<or> take (length k) c = k)\<close>

text \<open>
  The test of line 307, negated: the many-to-many field of that name gets a join-table
  statement of its own.
\<close>

definition emits_join_table :: "base \<Rightarrow> model \<Rightarrow> string \<Rightarrow> bool" where
  "emits_join_table b m m2m_field =
     (case map_of (fields_map m) m2m_field of
        None \<Rightarrow> False
      | Some field_object \<Rightarrow>
          (case m2m field_object of
             None \<Rightarrow> False
           | Some r \<Rightarrow>
               \<not> (m2m_generated r \<or> through r \<in> set (map db_table (get_models_to_create b)))))"

text \<open>
  What every Python set guarantees of \<^verbatim>\<open>add\<close>: the element is in the set
  afterwards, the others stay, nothing occurs twice, and adding an element that is
  present changes nothing. The position of a new element is not determined.
\<close>

definition set_add_ok :: "(string \<Rightarrow> string list \<Rightarrow> string list) \<Rightarrow> bool" where
  "set_add_ok add =
     (\<forall>x xs. set (add x xs) = insert x (set xs)
             \<and> (distinct xs \<longrightarrow> distinct (add x xs))
             \<and> (x \<in> set xs \<longrightarrow> add x xs = xs))"

text \<open>The schema names of a list of models.\<close>

definition model_schemas :: "model list \<Rightarrow> string set" where
  "model_schemas ms = {sc. \<exists>m \<in> set ms. schema m = Some sc}"

section \<open>An instance of the collaborators, and example models\<close>

text \<open>
  \<^verbatim>\<open>FIELD_TEMPLATE\<close> and \<^verbatim>\<open>UNIQUE_CONSTRAINT_CREATE_TEMPLATE\<close> of the
  generator, which the inherited methods format.
\<close>

definition field_template ::
  "ident \<Rightarrow> sql \<Rightarrow> sql \<Rightarrow> sql \<Rightarrow> sql \<Rightarrow> sql \<Rightarrow> sql \<Rightarrow> sql" where
  \<open>field_template name type nullable uniq primary dflt comment =
     ''"'' @ name @ ''" '' @ type @ '' '' @ nullable @ '' '' @ uniq @ primary @ dflt @ comment\<close>

definition unique_constraint_create_template :: "string \<Rightarrow> string \<Rightarrow> string" where
  \<open>unique_constraint_create_template index_name flds =
     ''CONSTRAINT "'' @ index_name @ ''" UNIQUE ('' @ flds @ '')''\<close>

definition strip :: "string \<Rightarrow> string" where
  "strip s = rev (dropWhile (\<lambda>c. c = CHR '' '') (rev (dropWhile (\<lambda>c. c = CHR '' '') s)))"

text \<open>Two ways a set may order its elements: a new element last, or first.\<close>

definition add_last :: "string \<Rightarrow> string list \<Rightarrow> string list" where
  "add_last x xs = (if x \<in> set xs then xs else xs @ [x])"

definition add_first :: "string \<Rightarrow> string list \<Rightarrow> string list" where
  "add_first x xs = (if x \<in> set xs then xs else x # xs)"

text \<open>
  An instance of the collaborators for the models \<open>ms\<close> and the set behaviour
  \<open>add\<close>: columns are formatted with \<^verbatim>\<open>FIELD_TEMPLATE\<close>, identifiers are
  quoted with double quotes, single quotes in comments are doubled, only
  \<^verbatim>\<open>None\<close> and strings have an encoder. The theorems below hold for every
  instance; this one serves to run the generator on examples.
\<close>

definition example_base :: "model list \<Rightarrow> (string \<Rightarrow> string list \<Rightarrow> string list) \<Rightarrow> base" where
  \<open>example_base ms add =
     \<lparr>create_string =
        (\<lambda>db_column field_type nullable uniq is_primary_key comment dflt.
           strip (field_template db_column field_type nullable
                    (if is_primary_key then [] else uniq)
                    (if is_primary_key then '' PRIMARY KEY'' else []) dflt [])),
      generate_index_name = (\<lambda>prefix m field_names.
           prefix @ ''_'' @ db_table m @ ''_'' @ join ''_'' field_names),
      generate_fk_name = (\<lambda>from_table from_field to_table to_field.
           ''fk_'' @ from_table @ ''_'' @ to_table),
      get_unique_constraint_sql = (\<lambda>m field_names.
           unique_constraint_create_template
             (''uid_'' @ db_table m @ ''_'' @ join ''_'' field_names)
             (join '', '' (map (\<lambda>f. ''"'' @ f @ ''"'') field_names))),
      get_inner_statements = [],
      table_generate_extra = (\<lambda>t. []),
      escape_comment = (\<lambda>c. concat (map (\<lambda>x. if x = CHR 0x27 then sq @ sq else [x]) c)),
      quote = (\<lambda>f. ''"'' @ f @ ''"''),
      get_models_to_create = ms,
      encoders = (\<lambda>v. case v of
                         PNone \<Rightarrow> Inr ''NULL''
                       | PStr x \<Rightarrow> Inr (sq @ x @ sq)
                       | _ \<Rightarrow> Inl (OtherError ''TypeError'')),
      to_db_value = (\<lambda>f v. Inr v),
      index_get_sql = (\<lambda>i m safe. []),
      table_str = (\<lambda>name sc. case sc of
                                Some x \<Rightarrow> ''"'' @ x @ ''"."'' @ name @ ''"''
                              | None \<Rightarrow> ''"'' @ name @ ''"''),
      set_add = add\<rparr>\<close>

definition plain_field :: field where
  "plain_field =
     \<lparr>field_class = OtherField, description = None, default = PNone,
      auto_now_add = False, auto_now = False, pk = False, generated = False,
      generated_sql = None, sql_type = ''INT'', null = False, unique = False,
      index = False, source_field = None, reference = None, m2m = None\<rparr>"

definition reference_to :: "string option \<Rightarrow> string \<Rightarrow> bool \<Rightarrow> reference_info" where
  "reference_to sc tbl con =
     \<lparr>ref_description = None, to_field_source_field = None,
      to_field_model_field_name = ''id'',
      related_model = \<lparr>schema = sc, db_table = tbl, db_pk_column = ''id'', pk_sql_type = ''INT''\<rparr>,
      on_delete = ''CASCADE'', db_constraint = con\<rparr>"

text \<open>A model with the given schema, table name, columns and many-to-many fields.\<close>

definition example_model ::
  "string option \<Rightarrow> string \<Rightarrow> (string \<times> field) list \<Rightarrow> string list \<Rightarrow> model" where
  "example_model sc tbl flds m2ms =
     \<lparr>schema = sc, db_table = tbl, db_pk_column = ''id'', pk_sql_type = ''INT'',
      fields_db_projection = map (\<lambda>(n, f). (n, n)) (filter (\<lambda>(n, f). m2m f = None) flds),
      fields_map = flds, unique_together = [], indexes = [],
      table_description = None, m2m_fields = m2ms\<rparr>"

text \<open>A foreign-key column to the table \<open>tbl\<close>, with or without database constraint.\<close>

definition fk_field :: "string \<Rightarrow> bool \<Rightarrow> field" where
  "fk_field tbl con = plain_field\<lparr>reference := Some (reference_to None tbl con)\<rparr>"

text \<open>Two models that refer to each other, with and without database constraint.\<close>

definition mutual_models :: "bool \<Rightarrow> model list" where
  "mutual_models con =
     [example_model None ''a'' [(''b_id'', fk_field ''b'' con)] [],
      example_model None ''b'' [(''a_id'', fk_field ''a'' con)] []]"


text \<open>
  A model with a many-to-many relation through the table of a declared model, and
  that model.
\<close>

definition through_models :: "model list" where
  "through_models =
     [example_model None ''event''
        [(''participants'',
          plain_field\<lparr>m2m := Some \<lparr>m2m_generated = False, through = ''event_team'',
                                   backward_key = ''event_id'', forward_key = ''team_id'',
                                   m2m_related_model =
                                     \<lparr>schema = None, db_table = ''team'', db_pk_column = ''id'',
                                      pk_sql_type = ''INT''\<rparr>,
                                   m2m_on_delete = ''CASCADE'', m2m_db_constraint = True\<rparr>\<rparr>)]
        [''participants''],
      example_model None ''event_team'' [] []]"

text \<open>A column whose default is a callable, and a model that has it.\<close>

definition token_field :: field where
  "token_field = plain_field\<lparr>default := PCallable, sql_type := ''VARCHAR(100)''\<rparr>"

definition token_model :: model where
  "token_model = example_model (Some ''s2'') ''tournament'' [(''token'', token_field)] []"

text \<open>
  The tables rendered for the models of an instance have the given names and the given
  references (a check that can be run).
\<close>

definition units_are :: "table_sql list \<Rightarrow> (string \<times> string list) list \<Rightarrow> bool" where
  "units_are ts expected =
     list_all2 (\<lambda>t (n, refs). table t = n \<and> references t \<subseteq> set refs \<and> set refs \<subseteq> references t)
       ts expected"

definition rendered_units :: "base \<Rightarrow> (string \<times> string list) list \<Rightarrow> bool" where
  "rendered_units b expected =
     (case tables_loop b True (get_models_to_create b) [] init of
        (Inr ts, g1) \<Rightarrow> units_are ts expected
      | (Inl e, g1) \<Rightarrow> False)"

section \<open>The comment collector\<close>

lemma table_comment_generator_simps [simp]:
  "fst (table_comment_generator b t c g) = []"
  "comments_array (snd (table_comment_generator b t c g)) = comments_array g @ [table_comment b t c]"
  "schema_names (snd (table_comment_generator b t c g)) = schema_names g"
  by (simp_all add: table_comment_generator_def)

lemma column_comment_generator_simps [simp]:
  "fst (column_comment_generator b t col c g) = []"
  "schema_names (snd (column_comment_generator b t col c g)) = schema_names g"
  by (simp_all add: column_comment_generator_def Let_def)

lemma column_comment_generator_comments:
  "set (comments_array (snd (column_comment_generator b t col c g)))
     = insert (column_comment b t col c) (set (comments_array g))"
  by (auto simp: column_comment_generator_def Let_def)

lemma column_comment_if_simps [simp]:
  "fst (column_comment_if b t col d g) = []"
  "schema_names (snd (column_comment_if b t col d g)) = schema_names g"
  by (simp_all add: column_comment_if_def split: option.splits)

lemma column_comment_if_comments:
  "set (comments_array (snd (column_comment_if b t col d g)))
     \<subseteq> set (comments_array g) \<union> {c. \<exists>x. c = column_comment b t col x}"
  by (auto simp: column_comment_if_def column_comment_generator_comments split: option.splits)

lemma post_table_hook_simps [simp]:
  "comments_array (snd (post_table_hook g)) = []"
  "schema_names (snd (post_table_hook g)) = schema_names g"
  by (simp_all add: post_table_hook_def Let_def)

lemma post_table_hook_empty: "comments_array g = [] \<Longrightarrow> fst (post_table_hook g) = []"
  by (simp add: post_table_hook_def)

section \<open>The namespace set is neither read nor written while a table is rendered\<close>

lemma table_comment_generator_names:
  "table_comment_generator b t c (g\<lparr>schema_names := ns\<rparr>)
     = (fst (table_comment_generator b t c g),
        (snd (table_comment_generator b t c g))\<lparr>schema_names := ns\<rparr>)"
  by (simp add: table_comment_generator_def)

lemma column_comment_generator_names:
  "column_comment_generator b t col c (g\<lparr>schema_names := ns\<rparr>)
     = (fst (column_comment_generator b t col c g),
        (snd (column_comment_generator b t col c g))\<lparr>schema_names := ns\<rparr>)"
  by (simp add: column_comment_generator_def Let_def)

lemma column_comment_if_names:
  "column_comment_if b t col d (g\<lparr>schema_names := ns\<rparr>)
     = (fst (column_comment_if b t col d g),
        (snd (column_comment_if b t col d g))\<lparr>schema_names := ns\<rparr>)"
  by (simp add: column_comment_if_def column_comment_generator_names split: option.splits)

lemma post_table_hook_names:
  "post_table_hook (g\<lparr>schema_names := ns\<rparr>)
     = (fst (post_table_hook g), (snd (post_table_hook g))\<lparr>schema_names := ns\<rparr>)"
  by (simp add: post_table_hook_def Let_def)

lemma render_field_missing:
  "map_of (fields_map m) fn = None \<Longrightarrow>
   render_field b m (fn, cn) (ftc, fwi, refs) g = (Inl (KeyError fn), g)"
  by simp

lemma render_field_default_error:
  "map_of (fields_map m) fn = Some f \<Longrightarrow> column_default b m cn f = Inl e \<Longrightarrow>
   render_field b m (fn, cn) (ftc, fwi, refs) g
     = (Inl e, snd (column_comment_if b (get_table_name_sql_string m) cn (description f) g))"
  by (simp add: split_beta)

lemma render_field_generated_pk:
  "map_of (fields_map m) fn = Some f \<Longrightarrow> column_default b m cn f = Inr d \<Longrightarrow>
   generated_pk_column f \<Longrightarrow>
   render_field b m (fn, cn) (ftc, fwi, refs) g
     = (Inr (ftc @ [generated_pk cn (or_else (generated_sql f) [])], fwi, refs),
        snd (column_comment_if b (get_table_name_sql_string m) cn (description f) g))"
  by (simp add: split_beta)

lemma render_field_reference:
  "map_of (fields_map m) fn = Some f \<Longrightarrow> column_default b m cn f = Inr d \<Longrightarrow>
   \<not> generated_pk_column f \<Longrightarrow> reference f = Some r \<Longrightarrow>
   render_field b m (fn, cn) (ftc, fwi, refs) g
     = (Inr (ftc @ [create_string b cn (sql_type f)
                      (if \<not> null f then ''NOT NULL'' else [])
                      (if unique f then ''UNIQUE'' else []) (pk f) [] d
                    @ (if db_constraint r
                       then create_fk_string
                              (generate_fk_name b (db_table m) cn (db_table (related_model r))
                                 (or_else (to_field_source_field r) (to_field_model_field_name r)))
                              cn (get_table_name_sql_string (related_model r))
                              (or_else (to_field_source_field r) (to_field_model_field_name r))
                              (on_delete r) []
                       else [])],
             if index f \<and> \<not> pk f then fwi @ [cn] else fwi,
             insert (db_table (related_model r)) refs),
        snd (column_comment_if b (get_table_name_sql_string m) cn (ref_description r)
               (snd (column_comment_if b (get_table_name_sql_string m) cn (description f) g))))"
  by (simp add: split_beta Let_def)

lemma render_field_plain:
  "map_of (fields_map m) fn = Some f \<Longrightarrow> column_default b m cn f = Inr d \<Longrightarrow>
   \<not> generated_pk_column f \<Longrightarrow> reference f = None \<Longrightarrow>
   render_field b m (fn, cn) (ftc, fwi, refs) g
     = (Inr (ftc @ [create_string b cn (sql_type f)
                      (if \<not> null f then ''NOT NULL'' else [])
                      (if unique f then ''UNIQUE'' else []) (pk f) [] d],
             if index f \<and> \<not> pk f then fwi @ [cn] else fwi, refs),
        snd (column_comment_if b (get_table_name_sql_string m) cn (description f) g))"
  by (simp add: split_beta Let_def)

lemmas render_field_cases =
  render_field_missing render_field_default_error render_field_generated_pk
  render_field_reference render_field_plain

lemma render_field_names:
  "render_field b m fc cols (g\<lparr>schema_names := ns\<rparr>)
     = (fst (render_field b m fc cols g), (snd (render_field b m fc cols g))\<lparr>schema_names := ns\<rparr>)"
proof -
  obtain fn cn where fc: "fc = (fn, cn)" by (cases fc)
  obtain ftc fwi refs where cols: "cols = (ftc, fwi, refs)" by (cases cols)
  show ?thesis
  proof (cases "map_of (fields_map m) fn")
    case None
    then show ?thesis unfolding fc cols by (simp del: render_field.simps add: render_field_cases column_comment_if_names)
  next
    case (Some f)
    show ?thesis
    proof (cases "column_default b m cn f")
      case (Inl e)
      with Some show ?thesis
        unfolding fc cols
        by (simp del: render_field.simps add: render_field_cases column_comment_if_names)
    next
      case (Inr d)
      show ?thesis
      proof (cases "generated_pk_column f")
        case True
        with Some Inr show ?thesis
          unfolding fc cols
          by (simp del: render_field.simps add: render_field_cases column_comment_if_names)
      next
        case False
        show ?thesis
        proof (cases "reference f")
          case None
          with Some Inr False show ?thesis
            unfolding fc cols
            by (simp del: render_field.simps add: render_field_cases column_comment_if_names)
        next
          case (Some r)
          with \<open>map_of (fields_map m) fn = Some f\<close> Inr False show ?thesis
            unfolding fc cols
            by (simp del: render_field.simps add: render_field_cases column_comment_if_names)
        qed
      qed
    qed
  qed
qed

lemma fields_loop_names:
  "fields_loop b m fcs cols (g\<lparr>schema_names := ns\<rparr>)
     = (fst (fields_loop b m fcs cols g), (snd (fields_loop b m fcs cols g))\<lparr>schema_names := ns\<rparr>)"
proof (induction fcs arbitrary: cols g)
  case Nil
  then show ?case by simp
next
  case (Cons fc fcs)
  show ?case
  proof (cases "render_field b m fc cols g")
    case (Pair r g')
    then show ?thesis
      using Cons.IH by (cases r) (simp_all add: render_field_names)
  qed
qed

lemma table_create_names:
  "table_create b m safe (g\<lparr>schema_names := ns\<rparr>)
     = (fst (table_create b m safe g), (snd (table_create b m safe g))\<lparr>schema_names := ns\<rparr>)"
  by (simp add: table_create_def fields_loop_names table_comment_generator_names
        Let_def split_beta split: prod.splits sum.splits)

lemma m2m_create_names:
  "m2m_create b m safe f r (g\<lparr>schema_names := ns\<rparr>)
     = (fst (m2m_create b m safe f r g), (snd (m2m_create b m safe f r g))\<lparr>schema_names := ns\<rparr>)"
  by (simp add: m2m_create_def table_comment_generator_names post_table_hook_names
        Let_def split_beta)

lemma m2m_loop_names:
  "m2m_loop b m safe mt names acc (g\<lparr>schema_names := ns\<rparr>)
     = (fst (m2m_loop b m safe mt names acc g),
        (snd (m2m_loop b m safe mt names acc g))\<lparr>schema_names := ns\<rparr>)"
  by (induction names arbitrary: acc g)
     (simp_all add: m2m_create_names split_beta split: option.splits)

lemma get_table_sql_names:
  "get_table_sql b m safe (g\<lparr>schema_names := ns\<rparr>)
     = (fst (get_table_sql b m safe g), (snd (get_table_sql b m safe g))\<lparr>schema_names := ns\<rparr>)"
  by (simp add: get_table_sql_def table_create_names post_table_hook_names m2m_loop_names
        Let_def split_beta split: prod.splits sum.splits)

section \<open>The collector after a table\<close>

lemma get_table_sql_schema_names [simp]:
  "schema_names (snd (get_table_sql b m safe g)) = schema_names g"
proof -
  define X where "X = get_table_sql b m safe g"
  have e: "X = (fst X, (snd X)\<lparr>schema_names := schema_names g\<rparr>)"
    using get_table_sql_names[where g = g and ns = "schema_names g" and b = b and m = m and safe = safe] by (simp add: X_def)
  have "snd X = (snd X)\<lparr>schema_names := schema_names g\<rparr>"
    by (metis e snd_conv)
  then have "schema_names (snd X) = schema_names ((snd X)\<lparr>schema_names := schema_names g\<rparr>)"
    by (rule arg_cong)
  also have "\<dots> = schema_names g" by simp
  finally show ?thesis by (simp add: X_def)
qed

lemma m2m_create_comments [simp]:
  "comments_array (snd (m2m_create b m safe f r g)) = []"
  by (simp add: m2m_create_def Let_def split_beta)

lemma m2m_loop_comments:
  "comments_array g = [] \<Longrightarrow> comments_array (snd (m2m_loop b m safe mt names acc g)) = []"
  by (induction names arbitrary: acc g) (simp_all add: split_beta split: option.splits)

lemma get_table_sql_comments:
  assumes "get_table_sql b m safe g = (Inr t, g')"
  shows "comments_array g' = []"
proof -
  obtain r g1 where tc: "table_create b m safe g = (r, g1)" by (cases "table_create b m safe g")
  show ?thesis
  proof (cases r)
    case (Inl e)
    with tc assms show ?thesis by (simp add: get_table_sql_def)
  next
    case (Inr p)
    obtain stmt refs where p: "p = (stmt, refs)" by (cases p)
    let ?g2 = "snd (post_table_hook g1)"
    have "comments_array (snd (m2m_loop b m safe (map db_table (get_models_to_create b))
              (m2m_fields m) [] ?g2)) = []"
      by (rule m2m_loop_comments) simp
    moreover have "g' = snd (m2m_loop b m safe (map db_table (get_models_to_create b))
              (m2m_fields m) [] ?g2)"
      using assms tc Inr p
      by (simp add: get_table_sql_def Let_def split_beta split: sum.splits prod.splits)
    ultimately show ?thesis by simp
  qed
qed


lemma get_table_sql_same_comments:
  assumes "comments_array g = comments_array g'"
  shows "fst (get_table_sql b m safe g) = fst (get_table_sql b m safe g')"
proof -
  have g: "g = g'\<lparr>schema_names := schema_names g\<rparr>" using assms by simp
  have "get_table_sql b m safe g = (fst (get_table_sql b m safe g'),
      (snd (get_table_sql b m safe g'))\<lparr>schema_names := schema_names g\<rparr>)"
    by (subst g) (rule get_table_sql_names)
  then show ?thesis by simp
qed

section \<open>The loop over the models\<close>

lemma add_schema_comments [simp]: "comments_array (add_schema b m g) = comments_array g"
  by (simp add: add_schema_def split: option.splits)

lemma tables_loop_ConsE:
  assumes "tables_loop b safe (m # ms) acc g = (Inr ts, g')"
  obtains t g2 where "get_table_sql b m safe (add_schema b m g) = (Inr t, g2)"
    and "tables_loop b safe ms (acc @ [t]) g2 = (Inr ts, g')"
  using assms
  by (auto split: prod.splits sum.splits)

lemma tables_loop_comments:
  assumes "tables_loop b safe ms acc g = (Inr ts, g')" "comments_array g = []"
  shows "comments_array g' = []"
  using assms
proof (induction ms arbitrary: acc g)
  case Nil
  then show ?case by simp
next
  case (Cons m ms)
  from Cons.prems(1) obtain t g2 where
    t: "get_table_sql b m safe (add_schema b m g) = (Inr t, g2)"
    and rest: "tables_loop b safe ms (acc @ [t]) g2 = (Inr ts, g')"
    by (rule tables_loop_ConsE)
  from get_table_sql_comments[OF t] have "comments_array g2 = []" .
  with Cons.IH[OF rest] show ?case .
qed

lemma tables_loop_units:
  assumes "tables_loop b safe ms acc g = (Inr ts, g')" "comments_array g = []"
  shows "\<exists>new. ts = acc @ new \<and> length new = length ms
           \<and> (\<forall>i < length ms. \<exists>gi. comments_array gi = []
                  \<and> fst (get_table_sql b (ms ! i) safe gi) = Inr (new ! i))"
  using assms
proof (induction ms arbitrary: acc g)
  case Nil
  then show ?case by simp
next
  case (Cons m ms)
  from Cons.prems(1) obtain t g2 where
    t: "get_table_sql b m safe (add_schema b m g) = (Inr t, g2)"
    and rest: "tables_loop b safe ms (acc @ [t]) g2 = (Inr ts, g')"
    by (rule tables_loop_ConsE)
  from get_table_sql_comments[OF t] have g2: "comments_array g2 = []" .
  from Cons.IH[OF rest g2] obtain new where new: "ts = (acc @ [t]) @ new"
    "length new = length ms"
    "\<forall>i < length ms. \<exists>gi. comments_array gi = []
        \<and> fst (get_table_sql b (ms ! i) safe gi) = Inr (new ! i)"
    by blast
  have "\<forall>i < length (m # ms). \<exists>gi. comments_array gi = []
        \<and> fst (get_table_sql b ((m # ms) ! i) safe gi) = Inr ((t # new) ! i)"
  proof (intro allI impI)
    fix i assume i: "i < length (m # ms)"
    show "\<exists>gi. comments_array gi = []
        \<and> fst (get_table_sql b ((m # ms) ! i) safe gi) = Inr ((t # new) ! i)"
    proof (cases i)
      case 0
      have "comments_array (add_schema b m g) = []" using Cons.prems(2) by simp
      with t 0 show ?thesis by (intro exI[of _ "add_schema b m g"]) simp
    next
      case (Suc j)
      with i new(3) show ?thesis by simp
    qed
  qed
  with new(1,2) show ?case by (intro exI[of _ "t # new"]) simp
qed


lemma add_schema_names:
  assumes "set_add_ok (set_add b)"
  shows "set (schema_names (add_schema b m g)) = set (schema_names g) \<union> model_schemas [m]"
    and "distinct (schema_names g) \<Longrightarrow> distinct (schema_names (add_schema b m g))"
  using assms
  by (auto simp: add_schema_def set_add_ok_def model_schemas_def split: option.splits)

lemma model_schemas_Cons: "model_schemas (m # ms) = model_schemas [m] \<union> model_schemas ms"
  by (auto simp: model_schemas_def)

lemma tables_loop_schema_names:
  assumes "tables_loop b safe ms acc g = (Inr ts, g')" "set_add_ok (set_add b)"
  shows "set (schema_names g') = set (schema_names g) \<union> model_schemas ms
         \<and> (distinct (schema_names g) \<longrightarrow> distinct (schema_names g'))"
  using assms(1)
proof (induction ms arbitrary: acc g)
  case Nil
  then show ?case by (simp add: model_schemas_def)
next
  case (Cons m ms)
  from Cons.prems obtain t g2 where
    t: "get_table_sql b m safe (add_schema b m g) = (Inr t, g2)"
    and rest: "tables_loop b safe ms (acc @ [t]) g2 = (Inr ts, g')"
    by (rule tables_loop_ConsE)
  have g2: "schema_names g2 = schema_names (add_schema b m g)"
    using get_table_sql_schema_names[of b m safe "add_schema b m g"] t by simp
  from Cons.IH[OF rest] add_schema_names[OF assms(2), where m = m and g = g] g2
  show ?case by (auto simp: model_schemas_Cons[of m ms])
qed

text \<open>A second run over the same models, from a generator that already knows their schemas.\<close>

lemma add_schema_present:
  assumes "set_add_ok (set_add b)" "model_schemas [m] \<subseteq> set (schema_names g)"
  shows "add_schema b m g = g"
  using assms
  by (auto simp: add_schema_def set_add_ok_def model_schemas_def split: option.splits)

lemma get_table_sql_again:
  assumes "get_table_sql b m safe g = (Inr t, g2)"
    and "comments_array g = []" "comments_array g' = []"
  shows "get_table_sql b m safe g' = (Inr t, g')"
proof -
  obtain r h where h: "get_table_sql b m safe g' = (r, h)"
    by (cases "get_table_sql b m safe g'")
  have "fst (get_table_sql b m safe g') = fst (get_table_sql b m safe g)"
    by (rule get_table_sql_same_comments) (simp add: assms)
  with assms(1) h have r: "r = Inr t" by simp
  with h have "comments_array h = []" by (auto dest: get_table_sql_comments)
  moreover have "schema_names h = schema_names g'"
    using get_table_sql_schema_names[of b m safe g'] h by simp
  ultimately have "h = g'" using assms(3) by simp
  with h r show ?thesis by simp
qed

lemma tables_loop_again:
  assumes "tables_loop b safe ms acc g = (Inr ts, g1)"
    and "set_add_ok (set_add b)"
    and "comments_array g = []" "comments_array g' = []"
    and "model_schemas ms \<subseteq> set (schema_names g')"
  shows "tables_loop b safe ms acc g' = (Inr ts, g')"
  using assms(1,3,5)
proof (induction ms arbitrary: acc g)
  case Nil
  then show ?case by simp
next
  case (Cons m ms)
  from Cons.prems(1) obtain t g2 where
    t: "get_table_sql b m safe (add_schema b m g) = (Inr t, g2)"
    and rest: "tables_loop b safe ms (acc @ [t]) g2 = (Inr ts, g1)"
    by (rule tables_loop_ConsE)
  from get_table_sql_comments[OF t] have g2: "comments_array g2 = []" .
  from Cons.prems(3) have sub: "model_schemas [m] \<subseteq> set (schema_names g')"
    "model_schemas ms \<subseteq> set (schema_names g')"
    by (auto simp: model_schemas_Cons[of m ms])
  have same: "add_schema b m g' = g'"
    by (rule add_schema_present[OF assms(2) sub(1)])
  have "get_table_sql b m safe g' = (Inr t, g')"
    by (rule get_table_sql_again[OF t]) (simp_all add: Cons.prems(2) assms(4))
  moreover have "tables_loop b safe ms (acc @ [t]) g' = (Inr ts, g')"
    by (rule Cons.IH[OF rest g2 sub(2)])
  ultimately show ?case by (simp add: same)
qed

section \<open>The ordering loop\<close>

lemma next_table_SomeD:
  "next_table_for_create ts c = Some t \<Longrightarrow> t \<in> set ts \<and> references t \<subseteq> c \<union> {table t}"
  by (auto simp: next_table_for_create_def find_Some_iff)

lemma next_table_None_iff:
  "next_table_for_create ts c = None \<longleftrightarrow> (\<forall>t \<in> set ts. \<not> references t \<subseteq> c \<union> {table t})"
  by (auto simp: next_table_for_create_def find_None_iff)





lemma order_loop_success:
  assumes "order_loop n ts created ordered joins = Inr (ordered', joins')"
    and "finite created" "card created + length ts \<le> n"
  shows "\<exists>perm. mset perm = mset ts \<and> placed_in_order created perm
           \<and> ordered' = ordered @ map table_creation_string perm
           \<and> joins' = joins @ concat (map m2m_tables perm)"
  using assms
proof (induction "length ts" arbitrary: ts created ordered joins)
  case 0
  then have ts: "ts = []" by simp
  have "next_table_for_create [] created = None"
    by (simp add: next_table_for_create_def)
  with "0.prems"(1) ts have "ordered' = ordered \<and> joins' = joins"
    by (subst (asm) order_loop.simps) (simp split: if_splits)
  with ts show ?case by (intro exI[of _ "[]"]) simp
next
  case (Suc k)
  from Suc.hyps(2) Suc.prems(3) have neq: "card created \<noteq> n" by simp
  with Suc.prems(1) obtain t where nt: "next_table_for_create ts created = Some t"
    by (subst (asm) order_loop.simps) (auto split: option.splits)
  from next_table_SomeD[OF nt] have t: "t \<in> set ts" "references t \<subseteq> created \<union> {table t}"
    by auto
  let ?ts = "remove1 t ts" and ?c = "insert (table t) created"
  have len: "k = length ?ts" using Suc.hyps(2) t(1) by (simp add: length_remove1)
  have rec: "order_loop n ?ts ?c (ordered @ [table_creation_string t]) (joins @ m2m_tables t)
      = Inr (ordered', joins')"
    using Suc.prems(1) neq nt by (subst (asm) order_loop.simps) simp
  have fin: "finite ?c" using Suc.prems(2) by simp
  have "card ?c \<le> Suc (card created)"
    using Suc.prems(2) by (simp add: card_insert_if)
  with Suc.prems(3) Suc.hyps(2) len have bound: "card ?c + length ?ts \<le> n" by simp
  from Suc.hyps(1)[OF len rec fin bound]
  obtain perm where perm: "mset perm = mset ?ts" "placed_in_order ?c perm"
      "ordered' = (ordered @ [table_creation_string t]) @ map table_creation_string perm"
      "joins' = (joins @ m2m_tables t) @ concat (map m2m_tables perm)"
    by blast
  have "mset (t # perm) = mset ts" using perm(1) t(1) by simp
  moreover have "placed_in_order created (t # perm)" using perm(2) t(2) by simp
  ultimately show ?case using perm(3,4) by (intro exI[of _ "t # perm"]) simp
qed


lemma loop_step_run: "loop_step n s s' \<Longrightarrow> run_from n s = run_from n s'"
proof (induction rule: loop_step.induct)
  case (place created ts t ordered joins)
  then show ?case
    unfolding run_from.simps by (subst order_loop.simps) simp
qed

lemma loop_steps_run: "(loop_step n)\<^sup>*\<^sup>* s s' \<Longrightarrow> run_from n s = run_from n s'"
  by (induction rule: rtranclp_induct) (auto dest: loop_step_run)

lemma length_remove1_less: "t \<in> set ts \<Longrightarrow> length (remove1 t ts) < length ts"
proof -
  assume t: "t \<in> set ts"
  then have "0 < length ts" by (cases ts) auto
  with t show ?thesis by (simp add: length_remove1)
qed

lemma loop_step_bound:
  assumes "loop_step n (ts, created, ordered, joins) (ts', created', ordered', joins')"
    and "finite created" "card created + length ts \<le> k"
  shows "finite created' \<and> card created' + length ts' \<le> k"
  using assms
proof (cases rule: loop_step.cases)
  case (place t)
  from next_table_SomeD[OF place(6)] have "t \<in> set ts" by simp
  then have "length (remove1 t ts) < length ts"
    by (rule length_remove1_less)
  moreover have "card (insert (table t) created) \<le> Suc (card created)"
    using assms(2) by (simp add: card_insert_if)
  ultimately show ?thesis using place assms(2,3) by simp
qed

lemma loop_steps_bound:
  assumes "(loop_step n)\<^sup>*\<^sup>* s s'" "finite (fst (snd s))" "card (fst (snd s)) + length (fst s) \<le> k"
  shows "finite (fst (snd s')) \<and> card (fst (snd s')) + length (fst s') \<le> k"
  using assms
proof (induction rule: rtranclp_induct)
  case base
  then show ?case by simp
next
  case (step y z)
  obtain ts c ord js where y: "y = (ts, c, ord, js)" by (cases y)
  obtain ts' c' ord' js' where z: "z = (ts', c', ord', js')" by (cases z)
  from step.IH[OF step.prems] y have "finite c" "card c + length ts \<le> k" by simp_all
  from loop_step_bound[OF step.hyps(2)[unfolded y z] this] z show ?case by simp
qed

lemma order_loop_stuck:
  assumes "ts \<noteq> []" "\<forall>t \<in> set ts. \<not> references t \<subseteq> created \<union> {table t}"
    and "card created + length ts \<le> n"
  shows "order_loop n ts created ordered joins = Inl (ConfigurationError cyclic_fk_message)"
proof -
  from assms(1,3) have "card created \<noteq> n" by (cases ts) auto
  moreover from assms(2) have "next_table_for_create ts created = None"
    by (simp add: next_table_None_iff)
  ultimately show ?thesis by (subst order_loop.simps) simp
qed

section \<open>Properties of the column renderer\<close>

lemma render_field_found_default:
  assumes "map_of (fields_map m) field_name = Some f"
    and "column_default b m column_name f = Inr d"
  shows "\<exists>cols' g'. render_field b m (field_name, column_name) cols g = (Inr cols', g')"
proof -
  obtain ftc fwi refs where cols: "cols = (ftc, fwi, refs)" by (cases cols)
  show ?thesis
    unfolding cols using assms
    by (cases "reference f") (simp_all add: Let_def split_beta)
qed

text \<open>
  Claim C9. A field whose default is a callable, or whose class is
  \<^verbatim>\<open>UUIDField\<close>, \<^verbatim>\<open>TextField\<close> or \<^verbatim>\<open>JSONField\<close>, gets the empty
  default fragment: neither \<^verbatim>\<open>to_db_value\<close> nor the encoders are called, no
  error is raised, and the iteration of the column loop for that field returns
  normally.
\<close>

theorem unrenderable_default_dropped:
  assumes "map_of (fields_map m) field_name = Some f"
    and "default f = PCallable \<or> field_class f \<in> {UUIDField, TextField, JSONField}"
  shows "column_default b m column_name f = Inr []
         \<and> (\<exists>cols' g'. render_field b m (field_name, column_name) cols g = (Inr cols', g'))"
proof -
  from assms(2) have d: "column_default b m column_name f = Inr []"
    by (auto simp: column_default_def)
  with render_field_found_default[OF assms(1) d] show ?thesis by simp
qed

theorem unrenderable_default_dropped_witness:
  "column_default (example_base [token_model] add_last) token_model ''token'' token_field = Inr []
   \<and> (\<exists>cols' g'. render_field (example_base [token_model] add_last) token_model
         (''token'', ''token'') ([], [], {}) init = (Inr cols', g'))"
proof -
  have found: "map_of (fields_map token_model) ''token'' = Some token_field"
    by (simp add: token_model_def example_model_def)
  have callable: "default token_field = PCallable
      \<or> field_class token_field \<in> {UUIDField, TextField, JSONField}"
    by (simp add: token_field_def plain_field_def)
  show ?thesis
    by (rule unrenderable_default_dropped[OF found callable])
qed

section \<open>The order of the tables\<close>


lemma get_create_schema_sql_failed:
  assumes "tables_loop b safe (get_models_to_create b) [] g = (Inr ts, g1)"
    and "order_loop (length ts) ts {} [] [] = Inl e"
  shows "get_create_schema_sql b safe g = (Inl e, g1)"
  using assms by (simp add: get_create_schema_sql_def)


text \<open>
  Claim C2. When the ordering loop reaches a state in which tables are left and none of
  them has all its references among the created tables and itself,
  \<^verbatim>\<open>get_create_schema_sql\<close> raises the configuration error about cyclic
  foreign-key references and returns no script.
\<close>

theorem cyclic_references_raise:
  assumes "tables_loop b safe (get_models_to_create b) [] g = (Inr ts0, g1)"
    and "(loop_step (length ts0))\<^sup>*\<^sup>* (ts0, {}, [], []) (ts, created, ordered, joins)"
    and "ts \<noteq> []"
    and "\<forall>t \<in> set ts. \<not> references t \<subseteq> created \<union> {table t}"
  shows "get_create_schema_sql b safe g = (Inl (ConfigurationError cyclic_fk_message), g1)"
proof -
  from loop_steps_bound[OF assms(2), of "length ts0"]
  have "card created + length ts \<le> length ts0" by simp
  from order_loop_stuck[OF assms(3,4) this]
  have "run_from (length ts0) (ts, created, ordered, joins)
          = Inl (ConfigurationError cyclic_fk_message)" by simp
  with loop_steps_run[OF assms(2)]
  have "order_loop (length ts0) ts0 {} [] [] = Inl (ConfigurationError cyclic_fk_message)"
    by simp
  from get_create_schema_sql_failed[OF assms(1) this] show ?thesis .
qed

lemma rendered_unitsE:
  assumes "rendered_units b expected"
  obtains ts g1 where "tables_loop b True (get_models_to_create b) [] init = (Inr ts, g1)"
    and "map table ts = map fst expected"
    and "map references ts = map (set \<circ> snd) expected"
proof -
  from assms obtain ts g1 where run: "tables_loop b True (get_models_to_create b) [] init = (Inr ts, g1)"
    and u: "units_are ts expected"
    by (auto simp: rendered_units_def split: prod.splits sum.splits)
  from u have "map table ts = map fst expected \<and> map references ts = map (set \<circ> snd) expected"
    unfolding units_are_def
    by (induction ts expected rule: list_all2_induct) auto
  with run that show ?thesis by blast
qed


lemma two_units:
  assumes "map table ts = [a, c]" "map references ts = [ra, rc]"
  obtains t u where "ts = [t, u]" "table t = a" "references t = ra"
    "table u = c" "references u = rc"
proof -
  from assms(1) obtain t u where ts: "ts = [t, u]" by (auto simp: map_eq_Cons_conv)
  with assms that show ?thesis by simp
qed

lemma mutual_units_constrained:
  "rendered_units (example_base (mutual_models True) add_last) [(''a'', [''b'']), (''b'', [''a''])]"
  by code_simp

lemma mutual_units_unconstrained:
  "rendered_units (example_base (mutual_models False) add_last) [(''a'', [''b'']), (''b'', [''a''])]"
  by code_simp


theorem cyclic_references_raise_witness:
  "get_create_schema_sql (example_base (mutual_models True) add_last) True init
     = (Inl (ConfigurationError cyclic_fk_message), init)"
proof -
  let ?b = "example_base (mutual_models True) add_last"
  from mutual_units_constrained obtain ts g1 where
    run: "tables_loop ?b True (get_models_to_create ?b) [] init = (Inr ts, g1)"
    and tabs: "map table ts = [''a'', ''b'']" and refs: "map references ts = [{''b''}, {''a''}]"
    by (rule rendered_unitsE) simp
  from tabs refs obtain t u where ts: "ts = [t, u]" "table t = ''a''" "references t = {''b''}"
    "table u = ''b''" "references u = {''a''}"
    by (rule two_units)
  have start: "(loop_step (length ts))\<^sup>*\<^sup>* (ts, {}, [], []) (ts, {}, [], [])" by simp
  have ne: "ts \<noteq> []" using ts by simp
  have stuck: "\<forall>t \<in> set ts. \<not> references t \<subseteq> {} \<union> {table t}" using ts by simp
  have "g1 = init"
  proof -
    have "snd (tables_loop ?b True (get_models_to_create ?b) [] init) = init" by code_simp
    with run show ?thesis by simp
  qed
  with cyclic_references_raise[OF run start ne stuck] show ?thesis by simp
qed



end
